theory Spec2Isabelle
  imports Main "HOL-Library.Sublist"
begin

section \<open>Python string primitives used by the toolkit\<close>

text \<open>
  Strings are \<^typ>\<open>string\<close>, read as ASCII text. The library calls of the source
  (\<^verbatim>\<open>str.split\<close>, \<^verbatim>\<open>str.rsplit\<close>, \<^verbatim>\<open>str.join\<close>,
  \<^verbatim>\<open>str.replace\<close>, \<^verbatim>\<open>str(int)\<close>, \<^verbatim>\<open>int(str)\<close>) are
  modelled on what CPython computes for a non-empty separator. Python's integers are
  \<^typ>\<open>int\<close>.
\<close>

datatype exn =
    CheckpointNotFoundError string
  | RuntimeError string
  | ValueError string
  | FileNotFoundError
  | NotADirectoryError
  | FileExistsError
  | RunContextInterruptedError
  | OtherException string
  | BaseOnly string

text \<open>
  \<^const>\<open>CheckpointNotFoundError\<close> carries its message, as the class of
  \<^verbatim>\<open>exceptions.py\<close> does; \<^const>\<open>OtherException\<close> stands for any other instance
  of \<^verbatim>\<open>Exception\<close>; \<^const>\<open>BaseOnly\<close> for an instance of \<^verbatim>\<open>BaseException\<close>
  that is not an \<^verbatim>\<open>Exception\<close> (\<^verbatim>\<open>KeyboardInterrupt\<close>, \<^verbatim>\<open>SystemExit\<close>).
\<close>

fun is_Exception :: "exn \<Rightarrow> bool" where
  "is_Exception (BaseOnly _) = False"
| "is_Exception _ = True"

text \<open>\<^verbatim>\<open>s.split(sep)\<close> for a non-empty \<open>sep\<close>: left to right, occurrences do not overlap.\<close>

function split_str :: "string \<Rightarrow> string \<Rightarrow> string list" where
  "split_str sep [] = [[]]"
| "split_str sep (x # xs) =
     (if sep \<noteq> [] \<and> prefix sep (x # xs)
      then [] # split_str sep (drop (length sep) (x # xs))
      else (case split_str sep xs of
              w # ws \<Rightarrow> (x # w) # ws
            | [] \<Rightarrow> [[x]]))"
  by pat_completeness auto
termination
  by (relation "measure (\<lambda>(sep, s). length s)") auto

text \<open>
  The rightmost occurrence of \<open>sep\<close> in a string, as \<^verbatim>\<open>str.rfind\<close> finds it:
  the text before it and the text after it.
\<close>

fun rsplit_last :: "string \<Rightarrow> string \<Rightarrow> (string \<times> string) option" where
  "rsplit_last sep [] = None"
| "rsplit_last sep (x # xs) =
     (case rsplit_last sep xs of
        Some (a, b) \<Rightarrow> Some (x # a, b)
      | None \<Rightarrow>
          if sep \<noteq> [] \<and> prefix sep (x # xs)
          then Some ([], drop (length sep) (x # xs))
          else None)"

text \<open>\<^verbatim>\<open>s.rsplit(sep, 1)\<close>: a list of one or two strings.\<close>

definition rsplit1 :: "string \<Rightarrow> string \<Rightarrow> string list" where
  "rsplit1 sep s = (case rsplit_last sep s of None \<Rightarrow> [s] | Some (a, b) \<Rightarrow> [a, b])"

text \<open>\<^verbatim>\<open>sep.join(parts)\<close>.\<close>

fun join_str :: "string \<Rightarrow> string list \<Rightarrow> string" where
  "join_str sep [] = []"
| "join_str sep [x] = x"
| "join_str sep (x # y # ys) = x @ sep @ join_str sep (y # ys)"

text \<open>\<^verbatim>\<open>s.replace(old, new)\<close> for a non-empty \<open>old\<close>: every occurrence, left to right.\<close>

function replace_str :: "string \<Rightarrow> string \<Rightarrow> string \<Rightarrow> string" where
  "replace_str old new [] = []"
| "replace_str old new (x # xs) =
     (if old \<noteq> [] \<and> prefix old (x # xs)
      then new @ replace_str old new (drop (length old) (x # xs))
      else x # replace_str old new xs)"
  by pat_completeness auto
termination
  by (relation "measure (\<lambda>(old, new, s). length s)") auto

subsection \<open>Decimal integers\<close>

definition digit_char :: "nat \<Rightarrow> char" where
  "digit_char d = char_of (48 + d)"

definition is_digit :: "char \<Rightarrow> bool" where
  "is_digit c = (48 \<le> (of_char c :: nat) \<and> (of_char c :: nat) \<le> 57)"

definition digit_val :: "char \<Rightarrow> nat" where
  "digit_val c = of_char c - 48"

text \<open>The ASCII white space that \<^verbatim>\<open>int()\<close> strips: tab, LF, VT, FF, CR and space.\<close>

definition is_space :: "char \<Rightarrow> bool" where
  "is_space c = ((9 \<le> (of_char c :: nat) \<and> (of_char c :: nat) \<le> 13) \<or> (of_char c :: nat) = 32)"

definition strip :: "string \<Rightarrow> string" where
  "strip s = rev (dropWhile is_space (rev (dropWhile is_space s)))"

text \<open>\<^verbatim>\<open>str(n)\<close> for a natural number, then for any integer.\<close>

fun str_nat :: "nat \<Rightarrow> string" where
  "str_nat n = (if n < 10 then [digit_char n] else str_nat (n div 10) @ [digit_char (n mod 10)])"

declare str_nat.simps [simp del]

definition str_int :: "int \<Rightarrow> string" where
  "str_int i = (if i < 0 then CHR ''-'' # str_nat (nat (- i)) else str_nat (nat i))"

text \<open>
  \<^verbatim>\<open>int(s)\<close> in base ten: optional white space around, an optional sign, then digits in
  which single underscores may stand between two digits. Anything else is a
  \<^verbatim>\<open>ValueError\<close>.
\<close>

fun digits_tail :: "nat \<Rightarrow> string \<Rightarrow> nat option" where
  "digits_tail acc [] = Some acc"
| "digits_tail acc (c # cs) =
     (if is_digit c then digits_tail (10 * acc + digit_val c) cs
      else if c = CHR ''_'' then
        (case cs of
           [] \<Rightarrow> None
         | d # ds \<Rightarrow> if is_digit d then digits_tail (10 * acc + digit_val d) ds else None)
      else None)"

fun parse_digits :: "string \<Rightarrow> nat option" where
  "parse_digits [] = None"
| "parse_digits (c # cs) = (if is_digit c then digits_tail (digit_val c) cs else None)"

definition py_int :: "string \<Rightarrow> exn + int" where
  "py_int s =
     (case strip s of
        [] \<Rightarrow> Inl (ValueError ''invalid literal for int()'')
      | c # cs \<Rightarrow>
          (let (neg, body) =
                 (if c = CHR ''-'' then (True, cs)
                  else if c = CHR ''+'' then (False, cs)
                  else (False, c # cs))
           in case parse_digits body of
                None \<Rightarrow> Inl (ValueError ''invalid literal for int()'')
              | Some n \<Rightarrow> Inr (if neg then - int n else int n)))"

section \<open>Checkpoint identifiers\<close>

text \<open>
  \<^verbatim>\<open>checkpoint_id = f"{global_step}-{self.run_id}__{str(uuid4())}"\<close>
  (\<^verbatim>\<open>save_checkpoint\<close>). The random token is an argument of the model.
\<close>

definition checkpoint_id :: "int \<Rightarrow> string \<Rightarrow> string \<Rightarrow> string" where
  "checkpoint_id global_step run_id token =
     str_int global_step @ ''-'' @ run_id @ ''__'' @ token"

text \<open>
  The decoding at the end of \<^verbatim>\<open>load_checkpoint\<close>:
  \<^verbatim>\<open>base, _ = id.rsplit("__", 1)\<close> raises \<^verbatim>\<open>ValueError\<close> unless there are two parts;
  \<^verbatim>\<open>parts = base.split("-")\<close>; \<^verbatim>\<open>int(parts[0])\<close>; \<^verbatim>\<open>"-".join(parts[1:])\<close>.
\<close>

definition decode_checkpoint_id :: "string \<Rightarrow> exn + (int \<times> string)" where
  "decode_checkpoint_id ident =
     (case rsplit1 ''__'' ident of
        [base, _] \<Rightarrow>
          (case split_str ''-'' base of
             [] \<Rightarrow> Inl (OtherException ''IndexError'')
           | p # ps \<Rightarrow>
               (case py_int p of
                  Inl e \<Rightarrow> Inl e
                | Inr global_step \<Rightarrow> Inr (global_step, join_str ''-'' ps)))
      | _ \<Rightarrow> Inl (ValueError ''not enough values to unpack''))"

section \<open>Metric sanitisation (\<^verbatim>\<open>metric_saver.py\<close>)\<close>

text \<open>
  A Python float is either a finite value or one of the three non-finite ones; the type of
  finite values stays abstract, \<^verbatim>\<open>math.isfinite\<close> only asks which case it is.
\<close>

datatype 'f pyfloat = Finite 'f | NaN | PosInf | NegInf

fun isfinite :: "'f pyfloat \<Rightarrow> bool" where
  "isfinite (Finite _) = True"
| "isfinite _ = False"

text \<open>
  \<^verbatim>\<open>JSON = dict[str, JSON] | list[JSON] | str | int | float | bool | None\<close>
  (\<^verbatim>\<open>config_types.py\<close>). A dictionary is the list of its items in insertion order.
\<close>

datatype 'f json =
    JDict "(string \<times> 'f json) list"
  | JList "'f json list"
  | JStr string
  | JInt int
  | JFloat "'f pyfloat"
  | JBool bool
  | JNone

fun encode_nan_and_inf_as_none :: "'f json \<Rightarrow> 'f json" where
  "encode_nan_and_inf_as_none (JDict items) =
     JDict (map (map_prod (\<lambda>key. key) encode_nan_and_inf_as_none) items)"
| "encode_nan_and_inf_as_none (JList elements) =
     JList (map encode_nan_and_inf_as_none elements)"
| "encode_nan_and_inf_as_none (JFloat o') = (if \<not> isfinite o' then JNone else JFloat o')"
| "encode_nan_and_inf_as_none other = other"

record 'f SaveMetricDict =
  metric_global_step :: int
  metric_tag :: string
  metric_value :: "'f json"

definition encode_metrics :: "'f SaveMetricDict list \<Rightarrow> 'f SaveMetricDict list" where
  "encode_metrics ms =
     map (\<lambda>m. \<lparr> metric_global_step = metric_global_step m,
                 metric_tag = metric_tag m,
                 metric_value = encode_nan_and_inf_as_none (metric_value m) \<rparr>) ms"

record 'f MemoryMetricSaver =
  metrics :: "'f SaveMetricDict list"

text \<open>\<^verbatim>\<open>self.metrics.extend(_encode_metrics(metrics))\<close>\<close>

definition save_metrics :: "'f MemoryMetricSaver \<Rightarrow> 'f SaveMetricDict list \<Rightarrow> 'f MemoryMetricSaver" where
  "save_metrics self ms = self\<lparr> metrics := metrics self @ encode_metrics ms \<rparr>"

text \<open>
  Where a value sits inside a JSON document: a sequence of dictionary keys and list
  indices. \<open>json_at\<close> reads the value at such a position, if there is one.
\<close>

datatype sel = Key string | Idx nat

fun json_at :: "'f json \<Rightarrow> sel list \<Rightarrow> 'f json option" where
  "json_at v [] = Some v"
| "json_at (JDict items) (Key k # p) =
     (case map_of items k of None \<Rightarrow> None | Some v \<Rightarrow> json_at v p)"
| "json_at (JList elements) (Idx i # p) =
     (if i < length elements then json_at (elements ! i) p else None)"
| "json_at _ (_ # _) = None"

section \<open>Object keys and file paths (\<^verbatim>\<open>s3.py\<close>)\<close>

text \<open>
  The host is POSIX: \<^verbatim>\<open>os.sep\<close> is the slash and \<^verbatim>\<open>os.path\<close> is
  \<^verbatim>\<open>posixpath\<close>. \<open>cwd\<close> is the working directory that \<^verbatim>\<open>os.path.abspath\<close>
  reads from the process.
\<close>

definition os_sep :: string where
  "os_sep = ''/''"

text \<open>\<^verbatim>\<open>posixpath.join(a, b)\<close>\<close>

definition path_join :: "string \<Rightarrow> string \<Rightarrow> string" where
  "path_join a b =
     (if prefix os_sep b then b
      else if a = [] \<or> suffix os_sep a then a @ b
      else a @ os_sep @ b)"

text \<open>
  The components of \<^verbatim>\<open>abspath(p)\<close>: join with the working directory, split at the
  separator, drop empty components and \<^verbatim>\<open>.\<close>, and let \<^verbatim>\<open>..\<close> remove the component
  before it (nothing, at the root).
\<close>

fun norm_components :: "string list \<Rightarrow> string list \<Rightarrow> string list" where
  "norm_components acc [] = rev acc"
| "norm_components acc (c # cs) =
     (if c = [] \<or> c = ''.'' then norm_components acc cs
      else if c = ''..'' then norm_components (tl acc) cs
      else norm_components (c # acc) cs)"

definition abspath_components :: "string \<Rightarrow> string \<Rightarrow> string list" where
  "abspath_components cwd p = norm_components [] (split_str os_sep (path_join cwd p))"

text \<open>
  \<^verbatim>\<open>posixpath.relpath(path, start)\<close> for a non-empty \<open>path\<close> (the library raises
  \<^verbatim>\<open>ValueError\<close> on an empty one): as many \<^verbatim>\<open>..\<close> as \<open>start\<close> has components
  beyond the common ones, then the rest of \<open>path\<close>; \<^verbatim>\<open>.\<close> when nothing is left.
\<close>

definition relpath :: "string \<Rightarrow> string \<Rightarrow> string \<Rightarrow> string" where
  "relpath cwd path start =
     (let start_list = abspath_components cwd start;
          path_list = abspath_components cwd path;
          i = length (longest_common_prefix start_list path_list);
          rel_list = replicate (length start_list - i) ''..'' @ drop i path_list
      in if rel_list = [] then ''.'' else join_str os_sep rel_list)"

definition file_path_to_s3_key :: "string \<Rightarrow> string \<Rightarrow> string \<Rightarrow> string \<Rightarrow> string" where
  "file_path_to_s3_key cwd file_path file_path_prefix_to_strip s3_key_prefix =
     (let file_suffix = relpath cwd file_path file_path_prefix_to_strip;
          key_suffix = replace_str os_sep ''/'' file_suffix
      in s3_key_prefix @ key_suffix)"

text \<open>The \<^verbatim>\<open>assert\<close> of the source is the \<open>Inl\<close> branch.\<close>

definition s3_key_to_file_path :: "string \<Rightarrow> string \<Rightarrow> string \<Rightarrow> exn + string" where
  "s3_key_to_file_path key file_path_prefix s3_key_prefix =
     (if \<not> suffix ''/'' s3_key_prefix then Inl (OtherException ''AssertionError'')
      else
        (let stripped_key = replace_str s3_key_prefix [] key;
             rel_file_path = replace_str ''/'' os_sep stripped_key
         in Inr (path_join file_path_prefix rel_file_path)))"

section \<open>The run context and its exit stack (\<^verbatim>\<open>run_context.py\<close>)\<close>

text \<open>
  A raised exception is its value together with its \<^verbatim>\<open>__context__\<close>, the exception
  that was being handled when it was raised. Python compares exception objects by
  identity; here two exceptions are the same when their values and contexts are equal.
\<close>

datatype pyexc = PyExc exn "pyexc option"




text \<open>
  \<^verbatim>\<open>_fix_exception_context(new_exc, old_exc)\<close> inside \<^verbatim>\<open>ExitStack.__exit__\<close>: walk the
  context chain of \<open>new_exc\<close>; stop without a change at an exception whose context is
  absent or is \<open>old_exc\<close>; at the one whose context is \<open>frame_exc\<close> (the exception that
  was being handled when \<^verbatim>\<open>__exit__\<close> was called) set the context to \<open>old_exc\<close>.
\<close>

fun fix_exception_context :: "pyexc option \<Rightarrow> pyexc \<Rightarrow> pyexc option \<Rightarrow> pyexc" where
  "fix_exception_context frame_exc (PyExc e None) old_exc = PyExc e None"
| "fix_exception_context frame_exc (PyExc e (Some c)) old_exc =
     (if Some c = old_exc then PyExc e (Some c)
      else if Some c = frame_exc then PyExc e old_exc
      else PyExc e (Some (fix_exception_context frame_exc c old_exc)))"

text \<open>
  What an \<^verbatim>\<open>__exit__\<close> method does with the exception it is passed: it returns a value,
  of which only the truth matters, or it raises.
\<close>

datatype exit_result = Returns bool | Raises exn

text \<open>
  A collaborator: whether it has \<^verbatim>\<open>__enter__\<close> and \<^verbatim>\<open>__exit__\<close>
  (\<^verbatim>\<open>_is_context_manager\<close>), what its \<^verbatim>\<open>__enter__\<close> does (\<open>None\<close>: it returns;
  \<open>Some e\<close>: it raises \<open>e\<close>) and what its \<^verbatim>\<open>__exit__\<close> does.
\<close>

record collaborator =
  is_context_manager :: bool
  cm_enter :: "exn option"
  cm_exit :: "pyexc option \<Rightarrow> exit_result"

datatype role = ConfigLoader | ModelLoader | ProgressSaver | MetricSaver | CheckpointManager

datatype event = Entered role | Exited role

text \<open>
  The fields of \<^verbatim>\<open>RunContext\<close> that \<^verbatim>\<open>__enter__\<close> and \<^verbatim>\<open>__exit__\<close> use.
  \<open>exit_callbacks\<close> is the stack of the \<^verbatim>\<open>ExitStack\<close>, last pushed first. \<open>trace\<close> is
  not a field of the source: it records, in order, each \<^verbatim>\<open>__enter__\<close> that returned and
  each \<^verbatim>\<open>__exit__\<close> that was called.
\<close>

record run_context =
  config_loader :: collaborator
  model_loader :: collaborator
  progress_saver :: collaborator
  metric_saver :: collaborator
  checkpoint_manager :: collaborator
  exit_callbacks :: "(role \<times> (pyexc option \<Rightarrow> exit_result)) list"
  trace :: "event list"

text \<open>\<^verbatim>\<open>RunContext.__init__\<close>: the collaborators and a new, empty \<^verbatim>\<open>ExitStack\<close>.\<close>

definition new_run_context ::
  "collaborator \<Rightarrow> collaborator \<Rightarrow> collaborator \<Rightarrow> collaborator \<Rightarrow> collaborator \<Rightarrow> run_context" where
  "new_run_context cfg mdl prg met chk =
     \<lparr> config_loader = cfg, model_loader = mdl, progress_saver = prg, metric_saver = met,
       checkpoint_manager = chk, exit_callbacks = [], trace = [] \<rparr>"

text \<open>
  \<^verbatim>\<open>ExitStack.enter_context(cm)\<close>: call \<^verbatim>\<open>__enter__\<close>; if it returns, push
  \<^verbatim>\<open>__exit__\<close>; if it raises, the exception leaves and nothing is pushed. A failure
  carries the run context as it is at that moment.
\<close>

definition enter_context ::
  "role \<Rightarrow> collaborator \<Rightarrow> run_context \<Rightarrow> (exn \<times> run_context) + run_context" where
  "enter_context r cm self =
     (case cm_enter cm of
        Some e \<Rightarrow> Inl (e, self)
      | None \<Rightarrow> Inr (self\<lparr> exit_callbacks := (r, cm_exit cm) # exit_callbacks self,
                           trace := trace self @ [Entered r] \<rparr>))"

definition enter_if_context_manager ::
  "role \<Rightarrow> collaborator \<Rightarrow> run_context \<Rightarrow> (exn \<times> run_context) + run_context" where
  "enter_if_context_manager r cm self =
     (if is_context_manager cm then enter_context r cm self else Inr self)"

definition and_then :: "'e + 'a \<Rightarrow> ('a \<Rightarrow> 'e + 'b) \<Rightarrow> 'e + 'b" where
  "and_then m f = (case m of Inl e \<Rightarrow> Inl e | Inr x \<Rightarrow> f x)"

text \<open>\<^verbatim>\<open>RunContext.__enter__\<close>\<close>

definition run_context_enter :: "run_context \<Rightarrow> (exn \<times> run_context) + run_context" where
  "run_context_enter self =
     and_then (enter_if_context_manager ConfigLoader (config_loader self) self) (\<lambda>s1.
     and_then (enter_if_context_manager ModelLoader (model_loader s1) s1) (\<lambda>s2.
     and_then (enter_if_context_manager ProgressSaver (progress_saver s2) s2) (\<lambda>s3.
     and_then (enter_if_context_manager MetricSaver (metric_saver s3) s3) (\<lambda>s4.
     enter_if_context_manager CheckpointManager (checkpoint_manager s4) s4))))"

text \<open>
  The loop of \<^verbatim>\<open>ExitStack.__exit__\<close>. A callback that raises is taken to raise a new
  exception (not the one it was passed); it does so while \<open>frame_exc\<close> is being
  handled, so the interpreter gives the new exception the context \<open>frame_exc\<close> before
  \<^verbatim>\<open>_fix_exception_context\<close> sees it.
\<close>

record unwind_state =
  cur_exc :: "pyexc option"
  suppressed_exc :: bool
  pending_raise :: bool
  exits :: "event list"

fun unwind ::
  "pyexc option \<Rightarrow> (role \<times> (pyexc option \<Rightarrow> exit_result)) list \<Rightarrow> unwind_state \<Rightarrow> unwind_state" where
  "unwind frame_exc [] st = st"
| "unwind frame_exc ((r, cb) # cbs) st =
     (case cb (cur_exc st) of
        Returns b \<Rightarrow>
          if b
          then unwind frame_exc cbs
                 (st\<lparr> cur_exc := None, suppressed_exc := True, pending_raise := False,
                      exits := exits st @ [Exited r] \<rparr>)
          else unwind frame_exc cbs (st\<lparr> exits := exits st @ [Exited r] \<rparr>)
      | Raises new_exc \<Rightarrow>
          unwind frame_exc cbs
            (st\<lparr> cur_exc := Some (fix_exception_context frame_exc (PyExc new_exc frame_exc) (cur_exc st)),
                 pending_raise := True,
                 exits := exits st @ [Exited r] \<rparr>))"

datatype 'a result = Return 'a | Raise pyexc

text \<open>
  \<^verbatim>\<open>ExitStack.__exit__(*exc_details)\<close>, called by the \<^verbatim>\<open>with\<close> statement, so that
  the exception being handled is the one passed, and none is being handled when the body
  returned (the \<^verbatim>\<open>with\<close> statement is not itself inside an \<^verbatim>\<open>except\<close> block).
  \<open>pending_raise\<close> is only ever set together with an exception, so the last branch is
  never taken.
\<close>

definition unwind_init :: "pyexc option \<Rightarrow> unwind_state" where
  "unwind_init exc =
     \<lparr> cur_exc = exc, suppressed_exc = False, pending_raise = False, exits = [] \<rparr>"

definition exit_stack_exit ::
  "pyexc option \<Rightarrow> (role \<times> (pyexc option \<Rightarrow> exit_result)) list \<Rightarrow> bool result \<times> event list" where
  "exit_stack_exit exc cbs =
     (let st = unwind exc cbs (unwind_init exc);
          received_exc = (exc \<noteq> None)
      in (if pending_raise st
          then (case cur_exc st of
                  Some e \<Rightarrow> Raise e
                | None \<Rightarrow> Return (received_exc \<and> suppressed_exc st))
          else Return (received_exc \<and> suppressed_exc st),
          exits st))"

fun is_interruption :: "pyexc option \<Rightarrow> bool" where
  "is_interruption (Some (PyExc RunContextInterruptedError _)) = True"
| "is_interruption _ = False"

text \<open>\<^verbatim>\<open>RunContext.__exit__\<close>\<close>

definition run_context_exit :: "run_context \<Rightarrow> pyexc option \<Rightarrow> bool result \<times> run_context" where
  "run_context_exit self exception_value =
     (let (exit_stack_result, evs) = exit_stack_exit exception_value (exit_callbacks self);
          self' = self\<lparr> exit_callbacks := [], trace := trace self @ evs \<rparr>
      in case exit_stack_result of
           Raise e \<Rightarrow> (Raise e, self')
         | Return b \<Rightarrow>
             if is_interruption exception_value then (Return True, self')
             else (Return b, self'))"

text \<open>
  What the caller of \<^verbatim>\<open>with run_context: body\<close> observes, where \<open>body\<close> is the
  exception the body raises, if any: no exception (\<open>Clean\<close>) or the exception that
  leaves the statement; and the trace. When \<^verbatim>\<open>__enter__\<close> raises, the body does not
  run and \<^verbatim>\<open>__exit__\<close> is not called: the collaborators entered before the failure
  are not released.
\<close>

datatype outcome = Clean | Propagates pyexc

definition with_run_context :: "run_context \<Rightarrow> pyexc option \<Rightarrow> outcome \<times> event list" where
  "with_run_context self body =
     (case run_context_enter self of
        Inl (e, failed) \<Rightarrow> (Propagates (PyExc e None), trace failed)
      | Inr entered \<Rightarrow>
          (let (r, self') = run_context_exit entered body
           in (case r of
                 Raise e \<Rightarrow> Propagates e
               | Return b \<Rightarrow>
                   (case body of
                      None \<Rightarrow> Clean
                    | Some e \<Rightarrow> if b then Clean else Propagates e),
               trace self')))"

text \<open>The collaborator that plays a role.\<close>

fun collaborator_of :: "run_context \<Rightarrow> role \<Rightarrow> collaborator" where
  "collaborator_of self ConfigLoader = config_loader self"
| "collaborator_of self ModelLoader = model_loader self"
| "collaborator_of self ProgressSaver = progress_saver self"
| "collaborator_of self MetricSaver = metric_saver self"
| "collaborator_of self CheckpointManager = checkpoint_manager self"

text \<open>
  The roles in the order in which \<^verbatim>\<open>__enter__\<close> looks at them, and those among
  them whose collaborator is a context manager.
\<close>

definition declared_order :: "role list" where
  "declared_order = [ConfigLoader, ModelLoader, ProgressSaver, MetricSaver, CheckpointManager]"

definition scoped_roles :: "run_context \<Rightarrow> role list" where
  "scoped_roles self = filter (\<lambda>r. is_context_manager (collaborator_of self r)) declared_order"

text \<open>
  Four collaborators for the examples: an object that is not a context manager; a
  context manager whose \<^verbatim>\<open>__exit__\<close> returns \<^verbatim>\<open>None\<close>; one whose \<^verbatim>\<open>__exit__\<close>
  raises; one whose \<^verbatim>\<open>__exit__\<close> returns \<^verbatim>\<open>True\<close>.
\<close>

definition plain_object :: collaborator where
  "plain_object = \<lparr> is_context_manager = False, cm_enter = None, cm_exit = (\<lambda>_. Returns False) \<rparr>"

definition quiet_manager :: collaborator where
  "quiet_manager = \<lparr> is_context_manager = True, cm_enter = None, cm_exit = (\<lambda>_. Returns False) \<rparr>"



section \<open>The file system under the base directory\<close>

text \<open>
  A path is the list of its components below \<^verbatim>\<open>base_dir\<close>; the empty path is
  \<^verbatim>\<open>base_dir\<close> itself. The file system is the list of the entries that exist, each
  with its path, its kind and its modification time; the order of the list is the order
  in which a directory scan returns them. The type of modification times is any linear
  order. Symbolic links and permissions are not modelled, and a component \<^verbatim>\<open>..\<close> is a
  name like any other: it is not resolved, and a directory has no entry \<^verbatim>\<open>..\<close> unless
  the list holds one.
\<close>

datatype kind = RegularFile | Directory

record 'm entry =
  entry_path :: "string list"
  entry_kind :: kind
  entry_mtime :: 'm

definition lookup :: "'m entry list \<Rightarrow> string list \<Rightarrow> 'm entry option" where
  "lookup fs p = find (\<lambda>e. entry_path e = p) fs"

definition path_exists :: "'m entry list \<Rightarrow> string list \<Rightarrow> bool" where
  "path_exists fs p = (lookup fs p \<noteq> None)"

definition is_dir :: "'m entry list \<Rightarrow> string list \<Rightarrow> bool" where
  "is_dir fs p = (case lookup fs p of None \<Rightarrow> False | Some e \<Rightarrow> entry_kind e = Directory)"

text \<open>\<^verbatim>\<open>os.scandir(p)\<close>: the entries directly inside \<open>p\<close>.\<close>

definition scandir :: "'m entry list \<Rightarrow> string list \<Rightarrow> 'm entry list" where
  "scandir fs p = filter (\<lambda>e. entry_path e \<noteq> [] \<and> butlast (entry_path e) = p) fs"

text \<open>\<^verbatim>\<open>PurePath.name\<close>: the last component, or the empty string.\<close>

definition path_name :: "string list \<Rightarrow> string" where
  "path_name p = (if p = [] then [] else last p)"

text \<open>
  \<^verbatim>\<open>path / s\<close>: the components of \<open>s\<close> are appended; empty components and \<^verbatim>\<open>.\<close>
  disappear. (A string that starts with a slash would replace the whole path; the model
  has no paths outside \<^verbatim>\<open>base_dir\<close> and appends in that case too.)
\<close>

definition components :: "string \<Rightarrow> string list" where
  "components s = filter (\<lambda>c. c \<noteq> [] \<and> c \<noteq> ''.'') (split_str ''/'' s)"

definition path_div :: "string list \<Rightarrow> string \<Rightarrow> string list" where
  "path_div p s = p @ components s"

text \<open>
  \<^verbatim>\<open>os.makedirs(p, exist_ok=True)\<close> at time \<open>now\<close>: from the top down, every
  missing directory on the way to \<open>p\<close> is created; a regular file on the way stops it.
  The first argument of \<open>makedirs_from\<close> is the part of the path already visited.
\<close>

fun makedirs_from ::
  "'m \<Rightarrow> string list \<Rightarrow> string list \<Rightarrow> 'm entry list \<Rightarrow> exn option \<times> 'm entry list" where
  "makedirs_from now done [] fs =
     (case lookup fs done of
        None \<Rightarrow> (None, fs @ [\<lparr> entry_path = done, entry_kind = Directory, entry_mtime = now \<rparr>])
      | Some e \<Rightarrow> if entry_kind e = Directory then (None, fs) else (Some FileExistsError, fs))"
| "makedirs_from now done (c # cs) fs =
     (case lookup fs done of
        None \<Rightarrow>
          makedirs_from now (done @ [c]) cs
            (fs @ [\<lparr> entry_path = done, entry_kind = Directory, entry_mtime = now \<rparr>])
      | Some e \<Rightarrow>
          if entry_kind e = Directory then makedirs_from now (done @ [c]) cs fs
          else (Some NotADirectoryError, fs))"

definition makedirs :: "'m \<Rightarrow> string list \<Rightarrow> 'm entry list \<Rightarrow> exn option \<times> 'm entry list" where
  "makedirs now p fs = makedirs_from now [] p fs"

text \<open>
  \<^verbatim>\<open>shutil.rmtree(p)\<close>: \<open>p\<close> and everything below it is removed; it raises when
  \<open>p\<close> does not exist or is not a directory.
\<close>

definition rmtree :: "string list \<Rightarrow> 'm entry list \<Rightarrow> exn + 'm entry list" where
  "rmtree p fs =
     (case lookup fs p of
        None \<Rightarrow> Inl FileNotFoundError
      | Some e \<Rightarrow>
          if entry_kind e = Directory
          then Inr (filter (\<lambda>e. \<not> prefix p (entry_path e)) fs)
          else Inl NotADirectoryError)"

subsection \<open>Matching one path component (\<^verbatim>\<open>fnmatch\<close>)\<close>

text \<open>
  After an opening bracket: an optional \<^verbatim>\<open>!\<close>, an optional \<^verbatim>\<open>]\<close> that belongs to the
  set, then everything up to the next \<^verbatim>\<open>]\<close>. Without a closing bracket the opening
  bracket is an ordinary character.
\<close>

fun scan_class :: "string \<Rightarrow> (string \<times> string) option" where
  "scan_class [] = None"
| "scan_class (c # cs) =
     (if c = CHR '']'' then Some ([], cs)
      else (case scan_class cs of None \<Rightarrow> None | Some (b, a) \<Rightarrow> Some (c # b, a)))"

definition parse_bracket :: "string \<Rightarrow> (bool \<times> string \<times> string) option" where
  "parse_bracket cs =
     (let (neg, cs1) = (case cs of c # r \<Rightarrow> if c = CHR ''!'' then (True, r) else (False, cs)
                                | [] \<Rightarrow> (False, cs));
          (lead, cs2) = (case cs1 of c # r \<Rightarrow> if c = CHR '']'' then ('']'', r) else ([], cs1)
                                  | [] \<Rightarrow> ([], cs1))
      in case scan_class cs2 of
           None \<Rightarrow> None
         | Some (b, a) \<Rightarrow> Some (neg, lead @ b, a))"

text \<open>Membership in a set: \<^verbatim>\<open>lo-hi\<close> is a range, any other character stands for itself.\<close>

fun in_class :: "string \<Rightarrow> char \<Rightarrow> bool" where
  "in_class (lo # d # hi # rest) c =
     (if d = CHR ''-''
      then ((of_char lo :: nat) \<le> of_char c \<and> (of_char c :: nat) \<le> of_char hi) \<or> in_class rest c
      else lo = c \<or> in_class (d # hi # rest) c)"
| "in_class (x # rest) c = (x = c \<or> in_class rest c)"
| "in_class [] c = False"

lemma scan_class_shorter: "scan_class cs = Some (b, a) \<Longrightarrow> length a < length cs"
  by (induction cs arbitrary: b a) (auto split: if_splits option.splits)

lemma parse_bracket_shorter: "parse_bracket cs = Some (neg, stuff, a) \<Longrightarrow> length a < Suc (length cs)"
  by (auto simp: parse_bracket_def Let_def split: list.splits if_splits option.splits prod.splits
        dest!: scan_class_shorter)

text \<open>
  \<^verbatim>\<open>fnmatch\<close> of a pattern against a whole name: \<^verbatim>\<open>*\<close> is any run of characters,
  \<^verbatim>\<open>?\<close> any one character, a bracket expression one character of the set (or, after
  \<^verbatim>\<open>!\<close>, one not in it), any other character itself.
\<close>

function fnmatch :: "string \<Rightarrow> string \<Rightarrow> bool" where
  "fnmatch [] name = (name = [])"
| "fnmatch (p # ps) name =
     (if p = CHR ''*'' then
        fnmatch ps name \<or> (case name of [] \<Rightarrow> False | _ # ns \<Rightarrow> fnmatch (p # ps) ns)
      else if p = CHR ''?'' then
        (case name of [] \<Rightarrow> False | _ # ns \<Rightarrow> fnmatch ps ns)
      else if p = CHR ''['' then
        (case parse_bracket ps of
           None \<Rightarrow> (case name of [] \<Rightarrow> False | n # ns \<Rightarrow> n = p \<and> fnmatch ps ns)
         | Some (neg, stuff, rest) \<Rightarrow>
             (case name of [] \<Rightarrow> False
              | n # ns \<Rightarrow> (in_class stuff n \<noteq> neg) \<and> fnmatch rest ns))
      else (case name of [] \<Rightarrow> False | n # ns \<Rightarrow> n = p \<and> fnmatch ps ns))"
  by pat_completeness auto
termination
  by (relation "measure (\<lambda>(p, n). length p + length n)")
     (auto dest: parse_bracket_shorter)

subsection \<open>\<^verbatim>\<open>Path.glob\<close>\<close>

definition is_wildcard_pattern :: "string \<Rightarrow> bool" where
  "is_wildcard_pattern pat =
     (CHR ''*'' \<in> set pat \<or> CHR ''?'' \<in> set pat \<or> CHR ''['' \<in> set pat)"

text \<open>
  The parts of a pattern: its components, and one empty part at the end when the pattern
  ends with a slash (only directories are then wanted).
\<close>

definition pattern_parts :: "string \<Rightarrow> string list" where
  "pattern_parts pattern =
     components pattern @ (if suffix ''/'' pattern then [[]] else [])"

text \<open>
  The selectors of \<^verbatim>\<open>pathlib\<close>: the empty part yields the path reached; a part with a
  wildcard scans the directory and keeps the names that match; any other part is looked
  up by name. Whatever is followed by another part has to be a directory. The recursive
  pattern \<^verbatim>\<open>**\<close> is not modelled (it is matched like \<^verbatim>\<open>*\<close>).
\<close>

fun select_from :: "'m entry list \<Rightarrow> string list \<Rightarrow> string list \<Rightarrow> string list list" where
  "select_from fs parent [] = [parent]"
| "select_from fs parent (pat # rest) =
     (if pat = [] then [parent]
      else if is_wildcard_pattern pat then
        concat (map (\<lambda>e.
            if fnmatch pat (path_name (entry_path e)) \<and> (rest \<noteq> [] \<longrightarrow> entry_kind e = Directory)
            then select_from fs (entry_path e) rest else [])
          (scandir fs parent))
      else if (if rest \<noteq> [] then is_dir fs (parent @ [pat]) else path_exists fs (parent @ [pat]))
      then select_from fs (parent @ [pat]) rest
      else [])"

definition glob :: "'m entry list \<Rightarrow> string list \<Rightarrow> string \<Rightarrow> string list list" where
  "glob fs p pattern = (if is_dir fs p then select_from fs p (pattern_parts pattern) else [])"

section \<open>The checkpoint manager (\<^verbatim>\<open>checkpoint_manager.py\<close>)\<close>

record LocalFileCheckpointManager =
  manager_run_id :: string
  most_recent_checkpoint_id :: "string option"

record LoadCheckpointData =
  load_dir :: "string list"
  load_id :: string
  load_global_step :: int
  load_run_id :: string

definition runs_path :: "string list" where
  "runs_path = path_div [] ''runs''"

definition checkpoints_path :: "string \<Rightarrow> string list" where
  "checkpoints_path run = path_div (path_div runs_path run) ''checkpoints''"

definition checkpoint_glob :: "string \<Rightarrow> string" where
  "checkpoint_glob ident = ''*/checkpoints/'' @ ident"

definition checkpoint_path :: "string \<Rightarrow> string \<Rightarrow> string list" where
  "checkpoint_path run ident = path_div (checkpoints_path run) ident"

text \<open>
  \<^verbatim>\<open>save_checkpoint\<close> with the body of the \<^verbatim>\<open>with\<close> statement as a function: given
  the directory and the file system it returns the exception it raises, if any, and the
  file system it leaves. The result is what the caller of the \<^verbatim>\<open>with\<close> statement
  observes. \<open>token\<close> is the value of \<^verbatim>\<open>str(uuid4())\<close> and \<open>now\<close> the time of the call.
\<close>

definition save_checkpoint ::
  "LocalFileCheckpointManager \<Rightarrow> int \<Rightarrow> string \<Rightarrow> 'm \<Rightarrow>
   (string list \<Rightarrow> 'm entry list \<Rightarrow> exn option \<times> 'm entry list) \<Rightarrow> 'm entry list \<Rightarrow>
   exn option \<times> LocalFileCheckpointManager \<times> 'm entry list" where
  "save_checkpoint self global_step token now body fs =
     (let ident = checkpoint_id global_step (manager_run_id self) token;
          self' = self\<lparr> most_recent_checkpoint_id := Some ident \<rparr>;
          p = checkpoint_path (manager_run_id self) ident
      in case makedirs now p fs of
           (Some e, fs1) \<Rightarrow> (Some e, self', fs1)
         | (None, fs1) \<Rightarrow>
             (case body p fs1 of
                (None, fs2) \<Rightarrow> (None, self', fs2)
              | (Some e, fs2) \<Rightarrow>
                  if is_Exception e
                  then (case rmtree p fs2 of
                          Inl e' \<Rightarrow> (Some e', self', fs2)
                        | Inr fs3 \<Rightarrow> (Some e, self', fs3))
                  else (Some e, self', fs2)))"

text \<open>
  \<^verbatim>\<open>repr\<close> of a string, which \<^verbatim>\<open>{id!r}\<close> calls (characters are the code points
  below 256). The string is put between apostrophes, or between double quotes when it
  holds an apostrophe and no double quote. The quote chosen and the backslash get a
  backslash in front; tab, line feed and carriage return are written \<^verbatim>\<open>\t\<close>,
  \<^verbatim>\<open>\n\<close>, \<^verbatim>\<open>\r\<close>; any other character that is not printable is written
  \<^verbatim>\<open>\xhh\<close>.
\<close>

definition is_printable :: "char \<Rightarrow> bool" where
  "is_printable c =
     (let n = (of_char c :: nat) in (32 \<le> n \<and> n < 127) \<or> (161 \<le> n \<and> n \<noteq> 173))"

definition hex_digit :: "nat \<Rightarrow> char" where
  "hex_digit n = (if n < 10 then char_of (48 + n) else char_of (87 + n))"

definition repr_char :: "char \<Rightarrow> char \<Rightarrow> string" where
  "repr_char quote c =
     (if c = quote \<or> c = CHR 0x5C then [CHR 0x5C, c]
      else if c = CHR 0x09 then [CHR 0x5C, CHR ''t'']
      else if c = CHR 0x0A then [CHR 0x5C, CHR ''n'']
      else if c = CHR 0x0D then [CHR 0x5C, CHR ''r'']
      else if is_printable c then [c]
      else [CHR 0x5C, CHR ''x'', hex_digit ((of_char c :: nat) div 16),
            hex_digit ((of_char c :: nat) mod 16)])"

definition repr_str :: "string \<Rightarrow> string" where
  "repr_str s =
     (let quote = (if CHR 0x27 \<in> set s \<and> CHR 0x22 \<notin> set s then CHR 0x22 else CHR 0x27)
      in [quote] @ concat (map (repr_char quote) s) @ [quote])"

text \<open>\<^verbatim>\<open>CheckpointNotFoundError(id)\<close>: the message names the id unless it is empty or absent.\<close>

definition checkpoint_not_found :: "string option \<Rightarrow> exn" where
  "checkpoint_not_found ident =
     (case ident of
        None \<Rightarrow> CheckpointNotFoundError ''could not find the most recent checkpoint''
      | Some i \<Rightarrow>
          if i = [] then CheckpointNotFoundError ''could not find the most recent checkpoint''
          else CheckpointNotFoundError (''could not find a checkpoint with id '' @ i))"

text \<open>
  The key of \<^verbatim>\<open>max\<close>: \<^verbatim>\<open>(c.stat().st_mtime, int(c.name.split("-")[0]))\<close>, compared
  as Python compares tuples.
\<close>

definition leading_segment :: "string \<Rightarrow> string" where
  "leading_segment name = (case split_str ''-'' name of [] \<Rightarrow> [] | p # _ \<Rightarrow> p)"

definition max_key :: "'m entry list \<Rightarrow> string list \<Rightarrow> exn + ('m \<times> int)" where
  "max_key fs c =
     (case lookup fs c of
        None \<Rightarrow> Inl FileNotFoundError
      | Some e \<Rightarrow>
          (case py_int (leading_segment (path_name c)) of
             Inl err \<Rightarrow> Inl err
           | Inr step \<Rightarrow> Inr (entry_mtime e, step)))"

definition key_less :: "('m::linorder) \<times> int \<Rightarrow> 'm \<times> int \<Rightarrow> bool" where
  "key_less a b = (fst a < fst b \<or> (fst a = fst b \<and> snd a < snd b))"

text \<open>The keys of all candidates, in order; the first failure is what is raised.\<close>

fun keyed :: "'m entry list \<Rightarrow> string list list \<Rightarrow> exn + (string list \<times> ('m \<times> int)) list" where
  "keyed fs [] = Inr []"
| "keyed fs (c # cs) =
     (case max_key fs c of
        Inl err \<Rightarrow> Inl err
      | Inr k \<Rightarrow> (case keyed fs cs of Inl err \<Rightarrow> Inl err | Inr ks \<Rightarrow> Inr ((c, k) # ks)))"

text \<open>\<^verbatim>\<open>max\<close> keeps the first of the candidates with the greatest key.\<close>

fun max_from ::
  "string list \<times> (('m::linorder) \<times> int) \<Rightarrow> (string list \<times> ('m \<times> int)) list \<Rightarrow> string list \<times> ('m \<times> int)" where
  "max_from best [] = best"
| "max_from best (x # xs) = max_from (if key_less (snd best) (snd x) then x else best) xs"

text \<open>The end of \<^verbatim>\<open>load_checkpoint\<close>: decode the name of the directory found.\<close>

definition yield_checkpoint :: "string list \<Rightarrow> exn + LoadCheckpointData" where
  "yield_checkpoint p =
     (case decode_checkpoint_id (path_name p) of
        Inl e \<Rightarrow> Inl e
      | Inr (global_step, run) \<Rightarrow>
          Inr \<lparr> load_dir = p, load_id = path_name p, load_global_step = global_step,
                load_run_id = run \<rparr>)"

definition load_checkpoint ::
  "LocalFileCheckpointManager \<Rightarrow> ('m::linorder) entry list \<Rightarrow> string option \<Rightarrow> exn + LoadCheckpointData" where
  "load_checkpoint self fs ident =
     (case ident of
        None \<Rightarrow>
          (let checkpoint_paths = glob fs (checkpoints_path (manager_run_id self)) ''*''
           in if length checkpoint_paths = 0 then Inl (checkpoint_not_found None)
              else (case keyed fs checkpoint_paths of
                      Inl e \<Rightarrow> Inl e
                    | Inr [] \<Rightarrow> Inl (ValueError ''max() arg is an empty sequence'')
                    | Inr (k # ks) \<Rightarrow> yield_checkpoint (fst (max_from k ks))))
      | Some i \<Rightarrow>
          (let checkpoint_paths = glob fs runs_path (checkpoint_glob i)
           in if length checkpoint_paths = 0 then Inl (checkpoint_not_found (Some i))
              else if length checkpoint_paths > 1
              then Inl (RuntimeError (''unexpected multiple checkpoints with id '' @ repr_str i))
              else (case checkpoint_paths of
                      [] \<Rightarrow> Inl (OtherException ''IndexError'')
                    | c # _ \<Rightarrow> yield_checkpoint c)))"

text \<open>
  An example: one run \<^verbatim>\<open>r\<close> with two checkpoints, written at times 10 and 20, and a
  file inside the first.
\<close>

definition example_fs :: "nat entry list" where
  "example_fs =
     [\<lparr> entry_path = [], entry_kind = Directory, entry_mtime = 1 \<rparr>,
      \<lparr> entry_path = [''runs''], entry_kind = Directory, entry_mtime = 1 \<rparr>,
      \<lparr> entry_path = [''runs'', ''r''], entry_kind = Directory, entry_mtime = 1 \<rparr>,
      \<lparr> entry_path = [''runs'', ''r'', ''checkpoints''], entry_kind = Directory, entry_mtime = 20 \<rparr>,
      \<lparr> entry_path = [''runs'', ''r'', ''checkpoints'', ''5-r__0a1b''], entry_kind = Directory,
        entry_mtime = 10 \<rparr>,
      \<lparr> entry_path = [''runs'', ''r'', ''checkpoints'', ''5-r__0a1b'', ''model.pth''],
        entry_kind = RegularFile, entry_mtime = 10 \<rparr>,
      \<lparr> entry_path = [''runs'', ''r'', ''checkpoints'', ''3-r__7c2d''], entry_kind = Directory,
        entry_mtime = 20 \<rparr>]"

text \<open>
  Three more: the same run with its first checkpoint only; the same run with two
  checkpoints of the same modification time; and what is there after a run of id
  \<^verbatim>\<open>exp[1]\<close> has saved a checkpoint at step 5 that wrote one file.
\<close>

definition example_single :: "nat entry list" where
  "example_single = take 6 example_fs"


definition example_writing_body ::
  "string list \<Rightarrow> nat entry list \<Rightarrow> exn option \<times> nat entry list" where
  "example_writing_body p fs =
     (None, fs @ [\<lparr> entry_path = p @ [''model.pth''], entry_kind = RegularFile, entry_mtime = 31 \<rparr>])"

definition example_bracket_manager :: LocalFileCheckpointManager where
  "example_bracket_manager = \<lparr> manager_run_id = ''exp[1]'', most_recent_checkpoint_id = None \<rparr>"

definition example_bracket_saved ::
  "exn option \<times> LocalFileCheckpointManager \<times> nat entry list" where
  "example_bracket_saved =
     save_checkpoint example_bracket_manager 5 ''0a1b'' 30 example_writing_body example_fs"




definition example_manager :: LocalFileCheckpointManager where
  "example_manager = \<lparr> manager_run_id = ''r'', most_recent_checkpoint_id = None \<rparr>"



definition checkpoints_named :: "'m entry list \<Rightarrow> string \<Rightarrow> string list list" where
  "checkpoints_named fs ident =
     (if is_dir fs runs_path
      then map (\<lambda>r. entry_path r @ [''checkpoints'', ident])
             (filter (\<lambda>r. entry_kind r = Directory \<and>
                           is_dir fs (entry_path r @ [''checkpoints'']) \<and>
                           path_exists fs (entry_path r @ [''checkpoints'', ident]))
                (scandir fs runs_path))
      else [])"

section \<open>Verified properties\<close>

subsection \<open>Strings and integers\<close>

lemma split_str_nonempty [simp]: "split_str sep s \<noteq> []"
  by (induction sep s rule: split_str.induct) (auto split: list.splits)

lemma is_digit_digit_char: "d < 10 \<Longrightarrow> is_digit (digit_char d)"
  by (simp add: is_digit_def digit_char_def)

lemma digit_val_digit_char: "d < 10 \<Longrightarrow> digit_val (digit_char d) = d"
  by (simp add: digit_val_def digit_char_def)

lemma str_nat_digits: "c \<in> set (str_nat n) \<Longrightarrow> is_digit c"
  by (induction n rule: str_nat.induct) (subst (asm) str_nat.simps, auto simp: is_digit_digit_char split: if_splits)

lemma str_nat_nonempty: "str_nat n \<noteq> []"
  by (subst str_nat.simps) simp

lemma digits_tail_snoc:
  "\<forall>c \<in> set ds. is_digit c \<Longrightarrow> is_digit d \<Longrightarrow>
   digits_tail acc (ds @ [d]) = map_option (\<lambda>v. 10 * v + digit_val d) (digits_tail acc ds)"
  by (induction ds arbitrary: acc) auto

lemma digits_tail_Some: "\<forall>c \<in> set ds. is_digit c \<Longrightarrow> \<exists>v. digits_tail acc ds = Some v"
  by (induction ds arbitrary: acc) auto

lemma parse_digits_snoc:
  "ds \<noteq> [] \<Longrightarrow> \<forall>c \<in> set ds. is_digit c \<Longrightarrow> is_digit d \<Longrightarrow>
   parse_digits (ds @ [d]) = map_option (\<lambda>v. 10 * v + digit_val d) (parse_digits ds)"
  by (cases ds) (auto simp: digits_tail_snoc)

lemma parse_digits_str_nat: "parse_digits (str_nat n) = Some n"
proof (induction n rule: str_nat.induct)
  case (1 n)
  show ?case
  proof (cases "n < 10")
    case True
    then show ?thesis
      by (subst str_nat.simps) (simp add: is_digit_digit_char digit_val_digit_char)
  next
    case False
    have "parse_digits (str_nat (n div 10) @ [digit_char (n mod 10)]) =
          map_option (\<lambda>v. 10 * v + digit_val (digit_char (n mod 10))) (parse_digits (str_nat (n div 10)))"
      by (rule parse_digits_snoc) (auto simp: str_nat_nonempty str_nat_digits is_digit_digit_char)
    with False 1 show ?thesis
      by (subst str_nat.simps) (simp add: digit_val_digit_char)
  qed
qed

lemma is_digit_not_space: "is_digit c \<Longrightarrow> \<not> is_space c"
  by (auto simp: is_digit_def is_space_def)

lemma dropWhile_unchanged: "s \<noteq> [] \<Longrightarrow> \<not> P (hd s) \<Longrightarrow> dropWhile P s = s"
  by (cases s) auto

lemma strip_digits: "\<forall>c \<in> set s. is_digit c \<Longrightarrow> strip s = s"
proof (cases s)
  case Nil
  then show ?thesis by (simp add: strip_def)
next
  case (Cons a list)
  assume d: "\<forall>c \<in> set s. is_digit c"
  with Cons have 1: "dropWhile is_space s = s" by (simp add: is_digit_not_space)
  from Cons have "rev s \<noteq> []" by simp
  moreover have "hd (rev s) \<in> set s" using Cons by (metis calculation hd_in_set set_rev)
  ultimately have "dropWhile is_space (rev s) = rev s"
    using d by (intro dropWhile_unchanged) (auto simp: is_digit_not_space)
  with 1 show ?thesis by (simp add: strip_def)
qed

lemma is_digit_not_sign: "is_digit c \<Longrightarrow> c \<noteq> CHR ''-'' \<and> c \<noteq> CHR ''+'' \<and> c \<noteq> CHR ''_''"
  by (auto simp: is_digit_def)

lemma py_int_str_nat: "py_int (str_nat n) = Inr (int n)"
proof -
  obtain c cs where eq: "str_nat n = c # cs"
    using str_nat_nonempty by (cases "str_nat n") auto
  have "is_digit c" using str_nat_digits [of c n] eq by simp
  then have ns: "c \<noteq> CHR ''-''" "c \<noteq> CHR ''+''" using is_digit_not_sign by auto
  have "\<forall>c \<in> set (str_nat n). is_digit c" using str_nat_digits by blast
  then have "strip (str_nat n) = str_nat n" by (rule strip_digits)
  then have st: "strip (str_nat n) = c # cs" using eq by simp
  have pd: "parse_digits (c # cs) = Some n" using parse_digits_str_nat [of n] eq by simp
  show ?thesis unfolding py_int_def st using ns pd by simp
qed

lemma rsplit_last_none: "CHR ''_'' \<notin> set t \<Longrightarrow> rsplit_last ''__'' t = None"
  by (induction t) auto

lemma rsplit_last_none1: "CHR ''_'' \<notin> set t \<Longrightarrow> rsplit_last ''__'' (CHR ''_'' # t) = None"
  by (cases t) (auto simp: rsplit_last_none)

lemma rsplit_last_Cons_None:
  "rsplit_last sep xs = None \<Longrightarrow>
   rsplit_last sep (x # xs) =
     (if sep \<noteq> [] \<and> prefix sep (x # xs) then Some ([], drop (length sep) (x # xs)) else None)"
  by simp

lemma rsplit_last_token:
  "CHR ''_'' \<notin> set t \<Longrightarrow> rsplit_last ''__'' (b @ ''__'' @ t) = Some (b, t)"
proof (induction b)
  case Nil
  then have n: "rsplit_last ''__'' (CHR ''_'' # t) = None" by (rule rsplit_last_none1)
  show ?case using rsplit_last_Cons_None [OF n, of "CHR ''_''"]
    by (simp del: rsplit_last.simps)
next
  case (Cons x b)
  then show ?case by simp
qed

lemma split_str_dash_digits:
  "CHR ''-'' \<notin> set ds \<Longrightarrow> split_str ''-'' (ds @ CHR ''-'' # r) = ds # split_str ''-'' r"
  by (induction ds) auto

lemma join_str_Cons_Cons: "join_str sep ((x # w) # ws) = x # join_str sep (w # ws)"
  by (cases ws) auto

lemma join_split: "join_str ''-'' (split_str ''-'' s) = s"
proof (induction s)
  case Nil
  then show ?case by simp
next
  case (Cons x xs)
  obtain w ws where eq: "split_str ''-'' xs = w # ws"
    by (cases "split_str ''-'' xs") auto
  show ?case
  proof (cases "x = CHR ''-''")
    case True
    then show ?thesis using Cons eq by simp
  next
    case False
    then have "split_str ''-'' (x # xs) = (x # w) # ws" using eq by simp
    then show ?thesis using Cons eq by (simp add: join_str_Cons_Cons)
  qed
qed

lemma str_nat_no_dash: "CHR ''-'' \<notin> set (str_nat n)"
  using str_nat_digits is_digit_not_sign by blast

subsection \<open>Identifier round trip\<close>

text \<open>
  Claim C1. For every non-negative \<open>global_step\<close>, every \<open>run_id\<close> (hyphens, underscores
  and all) and every token without an underscore (a UUID is hexadecimal digits and
  hyphens), decoding the identifier that \<^verbatim>\<open>save_checkpoint\<close> builds gives back exactly
  \<open>global_step\<close> and \<open>run_id\<close>.
\<close>

theorem checkpoint_id_roundtrip:
  assumes gs: "0 \<le> global_step" and tok: "CHR ''_'' \<notin> set token"
  shows "decode_checkpoint_id (checkpoint_id global_step run_id token) = Inr (global_step, run_id)"
proof -
  let ?ds = "str_nat (nat global_step)"
  have id: "checkpoint_id global_step run_id token = (?ds @ ''-'' @ run_id) @ ''__'' @ token"
    using gs by (simp add: checkpoint_id_def str_int_def)
  have r: "rsplit1 ''__'' (checkpoint_id global_step run_id token) = [?ds @ ''-'' @ run_id, token]"
    unfolding id rsplit1_def rsplit_last_token [OF tok] by simp
  have s: "split_str ''-'' (?ds @ ''-'' @ run_id) = ?ds # split_str ''-'' run_id"
    using split_str_dash_digits [OF str_nat_no_dash] by simp
  show ?thesis
    unfolding decode_checkpoint_id_def r using s gs
    by (simp add: py_int_str_nat join_split)
qed

theorem checkpoint_id_roundtrip_witness:
  "(0::int) \<le> 1200 \<and> CHR ''_'' \<notin> set ''6f1c2d3e-0a4b-4c5d-8e9f-0123456789ab'' \<and>
   decode_checkpoint_id
     (checkpoint_id 1200 ''exp-7_b__x'' ''6f1c2d3e-0a4b-4c5d-8e9f-0123456789ab'')
   = Inr (1200, ''exp-7_b__x'')"
  using checkpoint_id_roundtrip [of 1200 "''6f1c2d3e-0a4b-4c5d-8e9f-0123456789ab''" "''exp-7_b__x''"]
  by simp

subsection \<open>Metric sanitisation\<close>

lemma map_of_enc:
  "map_of (map (map_prod (\<lambda>key. key) f) items) k = map_option f (map_of items k)"
  by (induction items) auto

lemma json_at_encode:
  "json_at (encode_nan_and_inf_as_none v) p = map_option encode_nan_and_inf_as_none (json_at v p)"
proof (induction v p rule: json_at.induct)
  case (1 v)
  then show ?case by simp
next
  case (2 items k p)
  then show ?case by (auto simp: map_of_enc split: option.splits)
next
  case (3 elements i p)
  then show ?case by auto
qed (auto)

lemma encode_shape:
  "(case x of
      JFloat f \<Rightarrow> encode_nan_and_inf_as_none x = (if isfinite f then JFloat f else JNone)
    | JDict items \<Rightarrow> (\<exists>items'. encode_nan_and_inf_as_none x = JDict items' \<and> map fst items' = map fst items)
    | JList es \<Rightarrow> (\<exists>es'. encode_nan_and_inf_as_none x = JList es' \<and> length es' = length es)
    | _ \<Rightarrow> encode_nan_and_inf_as_none x = x)"
  by (cases x) (auto simp: comp_def)

lemma encode_metrics_nth:
  "i < length ms \<Longrightarrow>
   encode_metrics ms ! i =
     \<lparr> metric_global_step = metric_global_step (ms ! i), metric_tag = metric_tag (ms ! i),
       metric_value = encode_nan_and_inf_as_none (metric_value (ms ! i)) \<rparr>"
  by (simp add: encode_metrics_def)

lemma length_encode_metrics: "length (encode_metrics ms) = length ms"
  by (simp add: encode_metrics_def)

text \<open>
  Claim C8. \<^verbatim>\<open>save_metrics\<close> appends one stored record per record passed, in order,
  with \<open>global_step\<close> and \<open>tag\<close> unchanged. At every position of a record's value
  (however deep inside dictionaries and lists) a non-finite float is stored as
  \<^const>\<open>JNone\<close>, a finite float and every value that is not a float are stored as they
  are, dictionaries keep their keys and lists their length, and no position appears or
  disappears.
\<close>

theorem save_metrics_sanitizes:
  "take (length (metrics saver)) (metrics (save_metrics saver ms)) = metrics saver \<and>
   length (metrics (save_metrics saver ms)) = length (metrics saver) + length ms \<and>
   (\<forall>i < length ms.
      metric_global_step (metrics (save_metrics saver ms) ! (length (metrics saver) + i))
        = metric_global_step (ms ! i) \<and>
      metric_tag (metrics (save_metrics saver ms) ! (length (metrics saver) + i))
        = metric_tag (ms ! i) \<and>
      (\<forall>p. case json_at (metric_value (ms ! i)) p of
              None \<Rightarrow>
                json_at (metric_value (metrics (save_metrics saver ms) ! (length (metrics saver) + i))) p = None
            | Some x \<Rightarrow>
                (\<exists>y. json_at (metric_value (metrics (save_metrics saver ms) ! (length (metrics saver) + i))) p = Some y \<and>
                  (case x of
                     JFloat f \<Rightarrow> y = (if isfinite f then JFloat f else JNone)
                   | JDict items \<Rightarrow> (\<exists>items'. y = JDict items' \<and> map fst items' = map fst items)
                   | JList es \<Rightarrow> (\<exists>es'. y = JList es' \<and> length es' = length es)
                   | _ \<Rightarrow> y = x))))"
proof (intro conjI allI impI)
  show "take (length (metrics saver)) (metrics (save_metrics saver ms)) = metrics saver"
    by (simp add: save_metrics_def)
  show "length (metrics (save_metrics saver ms)) = length (metrics saver) + length ms"
    by (simp add: save_metrics_def length_encode_metrics)
next
  fix i assume i: "i < length ms"
  have nth: "metrics (save_metrics saver ms) ! (length (metrics saver) + i) = encode_metrics ms ! i"
    by (simp add: save_metrics_def nth_append)
  show "metric_global_step (metrics (save_metrics saver ms) ! (length (metrics saver) + i))
        = metric_global_step (ms ! i)"
    unfolding nth by (simp add: encode_metrics_nth [OF i])
  show "metric_tag (metrics (save_metrics saver ms) ! (length (metrics saver) + i))
        = metric_tag (ms ! i)"
    unfolding nth by (simp add: encode_metrics_nth [OF i])
  fix p
  have v: "metric_value (metrics (save_metrics saver ms) ! (length (metrics saver) + i))
           = encode_nan_and_inf_as_none (metric_value (ms ! i))"
    unfolding nth by (simp add: encode_metrics_nth [OF i])
  show "case json_at (metric_value (ms ! i)) p of
              None \<Rightarrow>
                json_at (metric_value (metrics (save_metrics saver ms) ! (length (metrics saver) + i))) p = None
            | Some x \<Rightarrow>
                (\<exists>y. json_at (metric_value (metrics (save_metrics saver ms) ! (length (metrics saver) + i))) p = Some y \<and>
                  (case x of
                     JFloat f \<Rightarrow> y = (if isfinite f then JFloat f else JNone)
                   | JDict items \<Rightarrow> (\<exists>items'. y = JDict items' \<and> map fst items' = map fst items)
                   | JList es \<Rightarrow> (\<exists>es'. y = JList es' \<and> length es' = length es)
                   | _ \<Rightarrow> y = x))"
  proof (cases "json_at (metric_value (ms ! i)) p")
    case None
    then show ?thesis unfolding v by (simp add: json_at_encode)
  next
    case (Some x)
    then show ?thesis unfolding v using encode_shape [of x]
      by (simp add: json_at_encode)
  qed
qed

theorem save_metrics_sanitizes_witness:
  "(0::nat) < length [\<lparr> metric_global_step = 3, metric_tag = ''val/loss'',
       metric_value = JDict [(''hist'', JList [JFloat (Finite (1::int)), JFloat PosInf]), (''n'', JInt 2)] \<rparr>] \<and>
   metrics (save_metrics \<lparr> metrics = [] \<rparr>
     [\<lparr> metric_global_step = 3, metric_tag = ''val/loss'',
        metric_value = JDict [(''hist'', JList [JFloat (Finite (1::int)), JFloat PosInf]), (''n'', JInt 2)] \<rparr>])
   = [\<lparr> metric_global_step = 3, metric_tag = ''val/loss'',
        metric_value = JDict [(''hist'', JList [JFloat (Finite 1), JNone]), (''n'', JInt 2)] \<rparr>]"
  using save_metrics_sanitizes [of "\<lparr> metrics = [] \<rparr>"
     "[\<lparr> metric_global_step = 3, metric_tag = ''val/loss'',
        metric_value = JDict [(''hist'', JList [JFloat (Finite (1::int)), JFloat PosInf]), (''n'', JInt 2)] \<rparr>]"]
  by (simp add: save_metrics_def encode_metrics_def)

subsection \<open>Object keys\<close>

text \<open>
  Claim C9. Uploading \<^verbatim>\<open>/src/raw/data/x.csv\<close> from \<^verbatim>\<open>/src\<close> under the prefix
  \<^verbatim>\<open>data/\<close> gives the key \<^verbatim>\<open>data/raw/data/x.csv\<close>; downloading that key to
  \<^verbatim>\<open>/dst\<close> gives \<^verbatim>\<open>/dst/raw/x.csv\<close>, because \<^verbatim>\<open>key.replace(s3_key_prefix, "")\<close>
  removes every occurrence of the prefix, not only the leading one. The relative path
  \<^verbatim>\<open>raw/data/x.csv\<close> is not reconstructed.
\<close>

theorem s3_key_roundtrip_diverges:
  "file_path_to_s3_key ''/home/user'' ''/src/raw/data/x.csv'' ''/src'' ''data/'' = ''data/raw/data/x.csv'' \<and>
   s3_key_to_file_path ''data/raw/data/x.csv'' ''/dst'' ''data/'' = Inr ''/dst/raw/x.csv'' \<and>
   path_join ''/dst'' (relpath ''/home/user'' ''/src/raw/data/x.csv'' ''/src'') = ''/dst/raw/data/x.csv''"
  by code_simp

subsection \<open>The exit stack\<close>


lemma exits_unwind: "exits (unwind f cbs st) = exits st @ map (Exited \<circ> fst) cbs"
  by (induction cbs arbitrary: st) (auto split: exit_result.splits)






lemma unwind_not_pending_cur:
  "\<forall>(r, cb) \<in> set cbs. \<forall>y. cb y \<noteq> Returns True \<Longrightarrow>
   \<not> pending_raise (unwind f cbs st) \<Longrightarrow> cur_exc (unwind f cbs st) = cur_exc st \<and> \<not> pending_raise st"
proof (induction cbs arbitrary: st)
  case Nil
  then show ?case by simp
next
  case (Cons a cbs)
  obtain r cb where a: "a = (r, cb)" by (cases a)
  have rest: "\<forall>(r, cb) \<in> set cbs. \<forall>y. cb y \<noteq> Returns True" using Cons.prems(1) by simp
  show ?case
  proof (cases "cb (cur_exc st)")
    case (Returns b)
    with Cons.prems a have "\<not> b" by auto
    with Returns a Cons.prems(2) Cons.IH [OF rest, of "st\<lparr> exits := exits st @ [Exited r] \<rparr>"]
    show ?thesis by simp
  next
    case (Raises e)
    with a Cons.prems(2)
      Cons.IH [OF rest, of "st\<lparr> cur_exc := Some (fix_exception_context f (PyExc e f) (cur_exc st)),
                 pending_raise := True, exits := exits st @ [Exited r] \<rparr>"]
    show ?thesis by simp
  qed
qed

lemma enter_if_cm_role:
  assumes "enter_if_context_manager r (collaborator_of s r) s = Inr s'"
  shows "trace s' = trace s @ map Entered (filter (\<lambda>x. is_context_manager (collaborator_of s x)) [r])"
    and "exit_callbacks s' =
           map (\<lambda>x. (x, cm_exit (collaborator_of s x)))
             (rev (filter (\<lambda>x. is_context_manager (collaborator_of s x)) [r])) @ exit_callbacks s"
    and "collaborator_of s' = collaborator_of s"
proof -
  show "trace s' = trace s @ map Entered (filter (\<lambda>x. is_context_manager (collaborator_of s x)) [r])"
    using assms
    by (auto simp: enter_if_context_manager_def enter_context_def split: if_splits option.splits)
  show "exit_callbacks s' =
           map (\<lambda>x. (x, cm_exit (collaborator_of s x)))
             (rev (filter (\<lambda>x. is_context_manager (collaborator_of s x)) [r])) @ exit_callbacks s"
    using assms
    by (auto simp: enter_if_context_manager_def enter_context_def split: if_splits option.splits)
  have "collaborator_of s' x = collaborator_of s x" for x
    using assms
    by (cases x) (auto simp: enter_if_context_manager_def enter_context_def split: if_splits option.splits)
  then show "collaborator_of s' = collaborator_of s" by (rule ext)
qed

lemma and_then_Inr: "and_then m f = Inr y \<Longrightarrow> \<exists>x. m = Inr x \<and> f x = Inr y"
  by (cases m) (auto simp: and_then_def)

lemma run_context_enter_Inr:
  assumes "run_context_enter self = Inr s'"
  shows "trace s' = trace self @ map Entered (scoped_roles self)"
    and "exit_callbacks s' =
           map (\<lambda>r. (r, cm_exit (collaborator_of self r))) (rev (scoped_roles self)) @ exit_callbacks self"
proof -
  let ?P = "\<lambda>x. is_context_manager (collaborator_of self x)"
  let ?g = "\<lambda>x. (x, cm_exit (collaborator_of self x))"
  obtain s1 where
    1: "enter_if_context_manager ConfigLoader (config_loader self) self = Inr s1" and
    r1: "and_then (enter_if_context_manager ModelLoader (model_loader s1) s1) (\<lambda>s2.
     and_then (enter_if_context_manager ProgressSaver (progress_saver s2) s2) (\<lambda>s3.
     and_then (enter_if_context_manager MetricSaver (metric_saver s3) s3) (\<lambda>s4.
     enter_if_context_manager CheckpointManager (checkpoint_manager s4) s4))) = Inr s'"
    using and_then_Inr [OF assms [unfolded run_context_enter_def]] by blast
  obtain s2 where
    2: "enter_if_context_manager ModelLoader (model_loader s1) s1 = Inr s2" and
    r2: "and_then (enter_if_context_manager ProgressSaver (progress_saver s2) s2) (\<lambda>s3.
     and_then (enter_if_context_manager MetricSaver (metric_saver s3) s3) (\<lambda>s4.
     enter_if_context_manager CheckpointManager (checkpoint_manager s4) s4)) = Inr s'"
    using and_then_Inr [OF r1] by blast
  obtain s3 where
    3: "enter_if_context_manager ProgressSaver (progress_saver s2) s2 = Inr s3" and
    r3: "and_then (enter_if_context_manager MetricSaver (metric_saver s3) s3) (\<lambda>s4.
     enter_if_context_manager CheckpointManager (checkpoint_manager s4) s4) = Inr s'"
    using and_then_Inr [OF r2] by blast
  obtain s4 where
    4: "enter_if_context_manager MetricSaver (metric_saver s3) s3 = Inr s4" and
    5: "enter_if_context_manager CheckpointManager (checkpoint_manager s4) s4 = Inr s'"
    using and_then_Inr [OF r3] by blast
  have 1: "enter_if_context_manager ConfigLoader (collaborator_of self ConfigLoader) self = Inr s1"
    using 1 by simp
  have 2: "enter_if_context_manager ModelLoader (collaborator_of s1 ModelLoader) s1 = Inr s2"
    using 2 by simp
  have 3: "enter_if_context_manager ProgressSaver (collaborator_of s2 ProgressSaver) s2 = Inr s3"
    using 3 by simp
  have 4: "enter_if_context_manager MetricSaver (collaborator_of s3 MetricSaver) s3 = Inr s4"
    using 4 by simp
  have 5: "enter_if_context_manager CheckpointManager (collaborator_of s4 CheckpointManager) s4 = Inr s'"
    using 5 by simp
  note e1 = enter_if_cm_role [OF 1] and e2 = enter_if_cm_role [OF 2]
    and e3 = enter_if_cm_role [OF 3] and e4 = enter_if_cm_role [OF 4] and e5 = enter_if_cm_role [OF 5]
  have c1: "collaborator_of s1 = collaborator_of self" by (rule e1(3))
  have c2: "collaborator_of s2 = collaborator_of self" using e2(3) c1 by simp
  have c3: "collaborator_of s3 = collaborator_of self" using e3(3) c2 by simp
  have c4: "collaborator_of s4 = collaborator_of self" using e4(3) c3 by simp
  have order: "declared_order =
      [ConfigLoader] @ [ModelLoader] @ [ProgressSaver] @ [MetricSaver] @ [CheckpointManager]"
    by (simp add: declared_order_def)
  have sc: "scoped_roles self =
      filter ?P [ConfigLoader] @ filter ?P [ModelLoader] @ filter ?P [ProgressSaver] @
      filter ?P [MetricSaver] @ filter ?P [CheckpointManager]"
    unfolding scoped_roles_def order filter_append ..
  have "trace s' = ((((trace self @ map Entered (filter ?P [ConfigLoader])) @
      map Entered (filter ?P [ModelLoader])) @ map Entered (filter ?P [ProgressSaver])) @
      map Entered (filter ?P [MetricSaver])) @ map Entered (filter ?P [CheckpointManager])"
    unfolding e5(1) e4(1) e3(1) e2(1) e1(1) c1 c2 c3 c4 ..
  then show "trace s' = trace self @ map Entered (scoped_roles self)"
    unfolding sc map_append append_assoc .
  have "exit_callbacks s' =
      map ?g (rev (filter ?P [CheckpointManager])) @ map ?g (rev (filter ?P [MetricSaver])) @
      map ?g (rev (filter ?P [ProgressSaver])) @ map ?g (rev (filter ?P [ModelLoader])) @
      map ?g (rev (filter ?P [ConfigLoader])) @ exit_callbacks self"
    unfolding e5(2) e4(2) e3(2) e2(2) e1(2) c1 c2 c3 c4 ..
  then show "exit_callbacks s' = map ?g (rev (scoped_roles self)) @ exit_callbacks self"
    unfolding sc rev_append map_append append_assoc .
qed

lemma trace_run_context_exit:
  "trace (snd (run_context_exit s exc)) = trace s @ map Exited (map fst (exit_callbacks s))"
  by (simp add: run_context_exit_def exit_stack_exit_def Let_def exits_unwind unwind_init_def
        split: result.splits prod.splits option.splits)

lemma snd_with_run_context:
  "run_context_enter self = Inr entered \<Longrightarrow>
   snd (with_run_context self body) = trace (snd (run_context_exit entered body))"
  by (simp add: with_run_context_def split: prod.splits)

lemma enter_exit_trace:
  assumes "run_context_enter (new_run_context cfg mdl prg met chk) = Inr entered"
  shows "trace entered = map Entered (scoped_roles (new_run_context cfg mdl prg met chk)) \<and>
         snd (with_run_context (new_run_context cfg mdl prg met chk) body) =
           map Entered (scoped_roles (new_run_context cfg mdl prg met chk)) @
           map Exited (rev (scoped_roles (new_run_context cfg mdl prg met chk)))"
proof -
  let ?self = "new_run_context cfg mdl prg met chk"
  have t: "trace ?self = []" and c: "exit_callbacks ?self = []"
    by (simp_all add: new_run_context_def)
  have 1: "trace entered = map Entered (scoped_roles ?self)"
    using run_context_enter_Inr(1) [OF assms] t by simp
  have 2: "map fst (exit_callbacks entered) = rev (scoped_roles ?self)"
    using run_context_enter_Inr(2) [OF assms] c by (simp add: comp_def)
  show ?thesis
    using 1 2 snd_with_run_context [OF assms, of body] trace_run_context_exit [of entered body]
    by simp
qed

lemma enter_example:
  "\<exists>entered. run_context_enter
     (new_run_context quiet_manager plain_object quiet_manager plain_object plain_object) = Inr entered"
  by (simp add: run_context_enter_def and_then_def enter_if_context_manager_def enter_context_def
        new_run_context_def quiet_manager_def plain_object_def)






subsection \<open>Run context: order of entry and release\<close>

text \<open>
  Claim C5. When \<^verbatim>\<open>__enter__\<close> of a new run context returns, it has entered exactly
  the collaborators that are context managers, in the order config, model, progress,
  metric, checkpoint; and the \<^verbatim>\<open>with\<close> statement then calls \<^verbatim>\<open>__exit__\<close> on
  exactly those, in the reverse order, whatever the body did (returned or raised) and
  whatever the release actions themselves do.
\<close>

theorem run_context_enter_exit_order:
  assumes "run_context_enter (new_run_context cfg mdl prg met chk) = Inr entered"
  shows "trace entered = map Entered (scoped_roles (new_run_context cfg mdl prg met chk)) \<and>
         snd (with_run_context (new_run_context cfg mdl prg met chk) body) =
           map Entered (scoped_roles (new_run_context cfg mdl prg met chk)) @
           map Exited (rev (scoped_roles (new_run_context cfg mdl prg met chk)))"
  using assms by (rule enter_exit_trace)

theorem run_context_enter_exit_order_witness:
  "(\<exists>entered. run_context_enter
      (new_run_context quiet_manager plain_object quiet_manager plain_object plain_object) = Inr entered) \<and>
   snd (with_run_context
      (new_run_context quiet_manager plain_object quiet_manager plain_object plain_object)
      (Some (PyExc (OtherException ''unrelated'') None)))
   = [Entered ConfigLoader, Entered ProgressSaver, Exited ProgressSaver, Exited ConfigLoader]"
proof -
  obtain entered where e: "run_context_enter
     (new_run_context quiet_manager plain_object quiet_manager plain_object plain_object) = Inr entered"
    using enter_example by blast
  have s: "scoped_roles (new_run_context quiet_manager plain_object quiet_manager plain_object plain_object)
           = [ConfigLoader, ProgressSaver]"
    by (simp add: scoped_roles_def declared_order_def new_run_context_def quiet_manager_def plain_object_def)
  show ?thesis
    using run_context_enter_exit_order [OF e, of "Some (PyExc (OtherException ''unrelated'') None)"] e
    unfolding s by simp
qed

subsection \<open>Run context: interruption\<close>




subsection \<open>Run context: release failures\<close>





subsection \<open>Checkpoint write and rollback\<close>










subsection \<open>The most recent checkpoint\<close>

lemma fnmatch_star: "fnmatch ''*'' name"
  by (induction name) auto






lemma key_less_trans_not:
  "\<not> key_less a b \<Longrightarrow> key_less a c \<Longrightarrow> \<not> key_less c b"
  by (auto simp: key_less_def)





















subsection \<open>Loading a checkpoint by id\<close>

lemma runs_path_eq: "runs_path = [''runs'']"
  by code_simp

lemma split_str_no_sep: "c \<notin> set s \<Longrightarrow> split_str [c] s = [s]"
  by (induction s) auto

lemma split_str_at_sep: "c \<notin> set a \<Longrightarrow> split_str [c] (a @ c # r) = a # split_str [c] r"
  by (induction a) auto

lemma split_checkpoint_glob:
  assumes "CHR ''/'' \<notin> set ident"
  shows "split_str ''/'' (checkpoint_glob ident) = [''*'', ''checkpoints'', ident]"
proof -
  have "split_str ''/'' (''*'' @ CHR ''/'' # (''checkpoints'' @ CHR ''/'' # ident)) =
        ''*'' # split_str ''/'' (''checkpoints'' @ CHR ''/'' # ident)"
    by (rule split_str_at_sep) simp
  also have "split_str ''/'' (''checkpoints'' @ CHR ''/'' # ident) = ''checkpoints'' # split_str ''/'' ident"
    by (rule split_str_at_sep) simp
  also have "split_str ''/'' ident = [ident]" using assms by (rule split_str_no_sep)
  finally show ?thesis by (simp add: checkpoint_glob_def)
qed

lemma suffix_slash_glob:
  assumes "CHR ''/'' \<notin> set ident"
  shows "suffix ''/'' (checkpoint_glob ident) \<longleftrightarrow> ident = []"
proof (cases ident rule: rev_cases)
  case Nil
  then show ?thesis by (simp add: checkpoint_glob_def suffix_def)
next
  case (snoc ys y)
  then have "y \<noteq> CHR ''/''" using assms by auto
  then show ?thesis using snoc by (simp add: checkpoint_glob_def suffix_def)
qed

lemma pattern_parts_glob:
  assumes "CHR ''/'' \<notin> set ident"
  shows "pattern_parts (checkpoint_glob ident) =
           [''*'', ''checkpoints''] @ (if ident = [] \<or> ident = ''.'' then [] else [ident]) @
           (if ident = [] then [[]] else [])"
  using assms
  by (simp add: pattern_parts_def components_def split_checkpoint_glob suffix_slash_glob)

lemma concat_map_if: "concat (map (\<lambda>e. if P e then [f e] else []) xs) = map f (filter P xs)"
  by (induction xs) auto

lemma wildcard_consts:
  "is_wildcard_pattern ''*''" "\<not> is_wildcard_pattern ''checkpoints''"
  by (simp_all add: is_wildcard_pattern_def)

lemma glob_plain:
  assumes ns: "CHR ''/'' \<notin> set ident" and nw: "\<not> is_wildcard_pattern ident"
    and ne: "ident \<noteq> []" and nd: "ident \<noteq> ''.''"
  shows "glob fs runs_path (checkpoint_glob ident) = checkpoints_named fs ident"
proof -
  have parts: "pattern_parts (checkpoint_glob ident) = [''*'', ''checkpoints'', ident]"
    using pattern_parts_glob [OF ns] ne nd by simp
  have inner: "select_from fs p [''checkpoints'', ident] =
      (if is_dir fs (p @ [''checkpoints'']) \<and> path_exists fs (p @ [''checkpoints'', ident])
       then [p @ [''checkpoints'', ident]] else [])" for p
    using nw ne wildcard_consts by simp
  have "select_from fs runs_path [''*'', ''checkpoints'', ident] =
      concat (map (\<lambda>e. if entry_kind e = Directory \<and> is_dir fs (entry_path e @ [''checkpoints'']) \<and>
                         path_exists fs (entry_path e @ [''checkpoints'', ident])
                      then [entry_path e @ [''checkpoints'', ident]] else [])
               (scandir fs runs_path))"
    unfolding select_from.simps(2) [of fs runs_path "''*''"] inner
    using wildcard_consts(1) fnmatch_star
    by (auto intro!: arg_cong [where f = concat] simp del: fnmatch.simps select_from.simps)
  then show ?thesis
    by (simp add: glob_def parts checkpoints_named_def concat_map_if del: select_from.simps)
qed

lemma checkpoints_named_name: "c \<in> set (checkpoints_named fs ident) \<Longrightarrow> path_name c = ident"
  by (auto simp: checkpoints_named_def path_name_def split: if_splits)

text \<open>
  Claim C3. A run whose id is \<^verbatim>\<open>exp[1]\<close> saves a checkpoint at step 5; the body writes
  one file and returns. The manager records the id \<^verbatim>\<open>5-exp[1]__0a1b\<close>, the directory
  \<^verbatim>\<open>runs/exp[1]/checkpoints/5-exp[1]__0a1b\<close> exists, it is the one entry under the
  checkpoint roots whose last path segment is that id, and the id decodes to step 5 and
  run \<^verbatim>\<open>exp[1]\<close>. Yet \<^verbatim>\<open>load_checkpoint\<close> with that id fails with
  \<^verbatim>\<open>CheckpointNotFoundError\<close>: the id is put into the pattern of \<^verbatim>\<open>Path.glob\<close> as
  it is, where \<^verbatim>\<open>[1]\<close> stands for the one character \<^verbatim>\<open>1\<close>.
\<close>

theorem load_by_id_misses_saved_checkpoint:
  "fst example_bracket_saved = None \<and>
   most_recent_checkpoint_id (fst (snd example_bracket_saved)) = Some ''5-exp[1]__0a1b'' \<and>
   is_dir (snd (snd example_bracket_saved)) [''runs'', ''exp[1]'', ''checkpoints'', ''5-exp[1]__0a1b''] \<and>
   checkpoints_named (snd (snd example_bracket_saved)) ''5-exp[1]__0a1b'' =
     [[''runs'', ''exp[1]'', ''checkpoints'', ''5-exp[1]__0a1b'']] \<and>
   decode_checkpoint_id ''5-exp[1]__0a1b'' = Inr (5, ''exp[1]'') \<and>
   load_checkpoint (fst (snd example_bracket_saved)) (snd (snd example_bracket_saved))
       (Some ''5-exp[1]__0a1b'') =
     Inl (CheckpointNotFoundError ''could not find a checkpoint with id 5-exp[1]__0a1b'')"
  by code_simp


subsection \<open>The id of the checkpoint loaded\<close>

lemma load_some_Inr:
  fixes fs :: "('m::linorder) entry list"
  assumes "load_checkpoint self fs (Some ident) = Inr d"
  shows "\<exists>c. glob fs runs_path (checkpoint_glob ident) = [c] \<and> yield_checkpoint c = Inr d"
  using assms
  by (cases "glob fs runs_path (checkpoint_glob ident)")
     (auto simp: load_checkpoint_def Let_def split: if_splits list.splits)

lemma yield_checkpoint_id: "yield_checkpoint c = Inr d \<Longrightarrow> load_id d = path_name c"
  by (auto simp: yield_checkpoint_def split: sum.splits prod.splits)

lemma decode_checkpoints_fails: "decode_checkpoint_id ''checkpoints'' = Inl (ValueError ''not enough values to unpack'')"
  by code_simp

lemma yield_checkpoints_dir:
  "path_name c = ''checkpoints'' \<Longrightarrow> yield_checkpoint c \<noteq> Inr d"
  by (simp add: yield_checkpoint_def decode_checkpoints_fails)

lemma select_checkpoints_dirs:
  assumes "c \<in> set (select_from fs p [''*'', ''checkpoints''] @ select_from fs p [''*'', ''checkpoints'', []])"
  shows "path_name c = ''checkpoints''"
  using assms wildcard_consts
  by (auto simp: path_name_def simp del: fnmatch.simps split: if_splits)

lemma glob_empty_or_dot:
  assumes "ident = [] \<or> ident = ''.''" and "c \<in> set (glob fs runs_path (checkpoint_glob ident))"
  shows "path_name c = ''checkpoints''"
proof -
  have ns: "CHR ''/'' \<notin> set ident" using assms(1) by auto
  have "pattern_parts (checkpoint_glob ident) = [''*'', ''checkpoints''] \<or>
        pattern_parts (checkpoint_glob ident) = [''*'', ''checkpoints'', []]"
    using pattern_parts_glob [OF ns] assms(1) by auto
  then have "c \<in> set (select_from fs runs_path [''*'', ''checkpoints''] @
                        select_from fs runs_path [''*'', ''checkpoints'', []])"
    using assms(2) by (auto simp: glob_def simp del: select_from.simps split: if_splits)
  then show ?thesis by (rule select_checkpoints_dirs)
qed

lemma ex_load_by_id:
  "load_checkpoint example_manager example_fs (Some ''5-r__0a1b'') =
     Inr \<lparr> load_dir = [''runs'', ''r'', ''checkpoints'', ''5-r__0a1b''], load_id = ''5-r__0a1b'',
           load_global_step = 5, load_run_id = ''r'' \<rparr>"
  by code_simp

text \<open>
  Claim C10, as amended. For every id without \<^verbatim>\<open>/\<close> and without \<^verbatim>\<open>*\<close>, \<^verbatim>\<open>?\<close>
  or \<^verbatim>\<open>[\<close>, whenever \<^verbatim>\<open>load_checkpoint(id)\<close> yields a checkpoint, the \<^verbatim>\<open>id\<close> field of
  that checkpoint is the id supplied. This does not extend to ids with glob
  metacharacters: the id \<^verbatim>\<open>*\<close> yields the checkpoint \<^verbatim>\<open>5-r__0a1b\<close>.
\<close>

theorem load_checkpoint_id_field:
  fixes fs :: "('m::linorder) entry list"
  shows "(CHR ''/'' \<notin> set ident \<and> \<not> is_wildcard_pattern ident \<and>
          load_checkpoint self fs (Some ident) = Inr d \<longrightarrow> load_id d = ident) \<and>
         (is_wildcard_pattern ''*'' \<and>
          load_checkpoint example_manager example_single (Some ''*'') =
            Inr \<lparr> load_dir = [''runs'', ''r'', ''checkpoints'', ''5-r__0a1b''],
                  load_id = ''5-r__0a1b'', load_global_step = 5, load_run_id = ''r'' \<rparr>)"
proof (intro conjI impI)
  assume a: "CHR ''/'' \<notin> set ident \<and> \<not> is_wildcard_pattern ident \<and>
          load_checkpoint self fs (Some ident) = Inr d"
  then obtain c where c: "glob fs runs_path (checkpoint_glob ident) = [c]" "yield_checkpoint c = Inr d"
    using load_some_Inr by blast
  show "load_id d = ident"
  proof (cases "ident = [] \<or> ident = ''.''")
    case True
    then have "path_name c = ''checkpoints''" using glob_empty_or_dot [of ident c fs] c(1) by simp
    then show ?thesis using yield_checkpoints_dir c(2) by blast
  next
    case False
    then have "glob fs runs_path (checkpoint_glob ident) = checkpoints_named fs ident"
      using a glob_plain [of ident fs] by simp
    then have "checkpoints_named fs ident = [c]" using c(1) by simp
    then have "c \<in> set (checkpoints_named fs ident)" by simp
    then have "path_name c = ident" by (rule checkpoints_named_name)
    then show ?thesis using yield_checkpoint_id [OF c(2)] by simp
  qed
next
  show "is_wildcard_pattern ''*''" by (rule wildcard_consts)
  show "load_checkpoint example_manager example_single (Some ''*'') =
            Inr \<lparr> load_dir = [''runs'', ''r'', ''checkpoints'', ''5-r__0a1b''],
                  load_id = ''5-r__0a1b'', load_global_step = 5, load_run_id = ''r'' \<rparr>"
    by code_simp
qed

theorem load_checkpoint_id_field_witness:
  "CHR ''/'' \<notin> set ''5-r__0a1b'' \<and> \<not> is_wildcard_pattern ''5-r__0a1b'' \<and>
   load_checkpoint example_manager example_fs (Some ''5-r__0a1b'') =
     Inr \<lparr> load_dir = [''runs'', ''r'', ''checkpoints'', ''5-r__0a1b''], load_id = ''5-r__0a1b'',
           load_global_step = 5, load_run_id = ''r'' \<rparr> \<and>
   load_id \<lparr> load_dir = [''runs'', ''r'', ''checkpoints'', ''5-r__0a1b''], load_id = ''5-r__0a1b'',
           load_global_step = 5, load_run_id = ''r'' \<rparr> = ''5-r__0a1b''"
proof -
  have h1: "CHR ''/'' \<notin> set ''5-r__0a1b''" by simp
  have h2: "\<not> is_wildcard_pattern ''5-r__0a1b''" by (simp add: is_wildcard_pattern_def)
  from load_checkpoint_id_field [where ident = "''5-r__0a1b''" and self = example_manager
      and fs = example_fs and d = "\<lparr> load_dir = [''runs'', ''r'', ''checkpoints'', ''5-r__0a1b''],
           load_id = ''5-r__0a1b'', load_global_step = 5, load_run_id = ''r'' \<rparr>"]
    h1 h2 ex_load_by_id
  have "load_id \<lparr> load_dir = [''runs'', ''r'', ''checkpoints'', ''5-r__0a1b''], load_id = ''5-r__0a1b'',
           load_global_step = 5, load_run_id = ''r'' \<rparr> = ''5-r__0a1b''"
    by blast
  then show ?thesis using h1 h2 ex_load_by_id by blast
qed

text \<open>
  Excluding the glob metacharacters is not enough: an id with a trailing \<^verbatim>\<open>/\<close> has
  none, and the checkpoint it yields has the id without the \<^verbatim>\<open>/\<close>.
\<close>

theorem slash_id_yields_other_id:
  "\<not> is_wildcard_pattern ''5-r__0a1b/'' \<and>
   load_checkpoint example_manager example_fs (Some ''5-r__0a1b/'') =
     Inr \<lparr> load_dir = [''runs'', ''r'', ''checkpoints'', ''5-r__0a1b''], load_id = ''5-r__0a1b'',
           load_global_step = 5, load_run_id = ''r'' \<rparr>"
  by code_simp

end
